theory Spec2Isabelle
  imports Complex_Main "HOL-Library.Word" "HOL-Library.Log_Nat" "HOL-Library.Multiset"
    "HOL-Library.Sublist"
begin

unbundle bit_operations_syntax

section \<open>Data model\<close>

text \<open>
  The Go types of \<^verbatim>\<open>bpprof.go\<close>: \<^verbatim>\<open>uintptr\<close> is taken at its width on the 64-bit targets
  (amd64, arm64), \<^verbatim>\<open>int64\<close> and \<^verbatim>\<open>uint64\<close> are 64-bit words (addition and subtraction wrap,
  \<open>sint\<close> reads an \<^verbatim>\<open>int64\<close>), \<^verbatim>\<open>uint32\<close> is a 32-bit word.
\<close>

type_synonym uintptr = "64 word"
type_synonym int64 = "64 word"
type_synonym uint64 = "64 word"
type_synonym uint32 = "32 word"

section \<open>formatSize\<close>

text \<open>
  \<^verbatim>\<open>var units = []string{"B", "KB", "MB", "GB", "TB"}\<close>
\<close>

definition units :: "string list" where
  "units = [''B'', ''KB'', ''MB'', ''GB'', ''TB'']"

text \<open>
  A \<^verbatim>\<open>float64\<close> that is finite is a dyadic rational, so the values of \<^verbatim>\<open>s\<close> in
  \<^verbatim>\<open>formatSize\<close> are modelled as real numbers.  \<^verbatim>\<open>float64(size)\<close> rounds an integer to 53
  significant bits, ties to even; it is the identity below \<open>2 ^ 53\<close>.
\<close>

definition float64_of_int64 :: "int \<Rightarrow> real" where
  "float64_of_int64 n =
     (let a = nat \<bar>n\<bar> in
      if a < 2 ^ 53 then of_int n
      else
        let e = floorlog 2 a - 53;
            q = a div 2 ^ e;
            r = a mod 2 ^ e;
            q' = (if 2 * r > 2 ^ e \<or> (2 * r = 2 ^ e \<and> odd q) then q + 1 else q)
        in of_int (sgn n) * of_nat (q' * 2 ^ e))"

text \<open>Decimal digits of a natural number, as \<^verbatim>\<open>fmt\<close> prints them.\<close>

definition digit :: "nat \<Rightarrow> char" where
  "digit d = ''0123456789'' ! (d mod 10)"

fun show_nat :: "nat \<Rightarrow> string" where
  "show_nat n = (if n < 10 then [digit n] else show_nat (n div 10) @ [digit (n mod 10)])"

text \<open>
  \<^verbatim>\<open>strconv\<close> formats the exact decimal expansion of the \<^verbatim>\<open>float64\<close> and rounds it at the
  requested digit, a tie going to the even digit.
\<close>

definition round_half_even :: "real \<Rightarrow> int" where
  "round_half_even x =
     (let f = \<lfloor>x\<rfloor>; d = x - of_int f in
      if d < 1 / 2 then f
      else if 1 / 2 < d then f + 1
      else if even f then f else f + 1)"

text \<open>\<^verbatim>\<open>fmt.Sprintf("%.2f", s)\<close>\<close>

definition sprintf_2f :: "real \<Rightarrow> string" where
  "sprintf_2f s =
     (let n = nat (round_half_even (\<bar>s\<bar> * 100)) in
      (if s < 0 then ''-'' else '''') @ show_nat (n div 100) @ ''.''
        @ [digit (n mod 100 div 10), digit (n mod 10)])"

text \<open>\<^verbatim>\<open>fmt.Sprintf("%.0f", s)\<close>\<close>

definition sprintf_0f :: "real \<Rightarrow> string" where
  "sprintf_0f s =
     (if s < 0 then ''-'' else '''') @ show_nat (nat (round_half_even \<bar>s\<bar>))"

text \<open>
  The loop of \<^verbatim>\<open>formatSize\<close> over the remaining units; \<^verbatim>\<open>s /= 1024\<close> only changes the
  exponent of a \<^verbatim>\<open>float64\<close> that is at least 1000, so it is exact.  When the units are
  used up, the value (divided once for every unit) is printed by \<^verbatim>\<open>"%.0fTB"\<close>.
\<close>

fun formatSize_loop :: "real \<Rightarrow> string list \<Rightarrow> string" where
  "formatSize_loop s [] = sprintf_0f s @ ''TB''"
| "formatSize_loop s (u # us) =
     (if s < 1000 then sprintf_2f s @ u else formatSize_loop (s / 1024) us)"

text \<open>\<^verbatim>\<open>func formatSize(size int64) string\<close>, on the integer value \<open>sz\<close> of \<^verbatim>\<open>size\<close>.\<close>

definition formatSize :: "int \<Rightarrow> string" where
  "formatSize sz = formatSize_loop (float64_of_int64 sz) units"

section \<open>Memory-profile records\<close>

text \<open>
  \<^verbatim>\<open>runtime.MemProfileRecord\<close>: four \<^verbatim>\<open>int64\<close> counters and the array \<^verbatim>\<open>Stack0 [32]uintptr\<close>,
  a list here (of 32 entries, the stack followed by zeros).  Its methods are the ones of
  the Go runtime: in-use figures are allocated minus freed, and \<^verbatim>\<open>Stack()\<close> is the prefix
  of \<^verbatim>\<open>Stack0\<close> before the first zero entry.
\<close>

record MemProfileRecord =
  AllocBytes :: int64
  FreeBytes :: int64
  AllocObjects :: int64
  FreeObjects :: int64
  Stack0 :: "uintptr list"

definition InUseBytes :: "MemProfileRecord \<Rightarrow> int64" where
  "InUseBytes r = AllocBytes r - FreeBytes r"

definition InUseObjects :: "MemProfileRecord \<Rightarrow> int64" where
  "InUseObjects r = AllocObjects r - FreeObjects r"

definition Stack :: "MemProfileRecord \<Rightarrow> uintptr list" where
  "Stack r = takeWhile (\<lambda>pc. pc \<noteq> 0) (Stack0 r)"

section \<open>Deduplication\<close>

text \<open>
  The body of the inner loop of \<^verbatim>\<open>Heap\<close> over \<^verbatim>\<open>r.Stack0\<close> (lines 123 to 125), the loop
  (lines 122 to 126) and the two statements after it (lines 127 and 128): the key of a
  record in the map \<^verbatim>\<open>pm\<close>.
\<close>

definition hash_mix :: "uintptr \<Rightarrow> uintptr \<Rightarrow> uintptr" where
  "hash_mix h pc =
     (let h1 = h + pc;
          h2 = h1 + push_bit 10 h1;
          h3 = h2 XOR drop_bit 6 h2
      in h3)"

fun hash_loop :: "uintptr \<Rightarrow> uintptr list \<Rightarrow> uintptr" where
  "hash_loop h [] = h"
| "hash_loop h (pc # pcs) = hash_loop (hash_mix h pc) pcs"

definition stack_hash :: "uintptr list \<Rightarrow> uintptr" where
  "stack_hash stk =
     (let h = hash_loop 0 stk;
          h1 = h + push_bit 3 h;
          h2 = h1 XOR drop_bit 11 h1
      in h2)"

text \<open>
  The four additions of lines 131 to 134: \<^verbatim>\<open>r\<close> with the counters of the stored record
  \<^verbatim>\<open>pm[h]\<close> added to its own.
\<close>

definition merged :: "MemProfileRecord \<Rightarrow> MemProfileRecord \<Rightarrow> MemProfileRecord" where
  "merged r e =
     r\<lparr>AllocBytes := AllocBytes r + AllocBytes e,
       FreeBytes := FreeBytes r + FreeBytes e,
       AllocObjects := AllocObjects r + AllocObjects e,
       FreeObjects := FreeObjects r + FreeObjects e\<rparr>"

text \<open>
  One turn of the loop over \<^verbatim>\<open>p\<close> (lines 119 to 137): when the key is present the
  counters of the stored record are added to \<^verbatim>\<open>r\<close>, and \<^verbatim>\<open>r\<close> is stored under the key
  in either case.
\<close>

definition dedup_step ::
  "(uintptr \<rightharpoonup> MemProfileRecord) \<Rightarrow> MemProfileRecord \<Rightarrow> (uintptr \<rightharpoonup> MemProfileRecord)" where
  "dedup_step pm r =
     (let h = stack_hash (Stack0 r) in
      case pm h of
        Some e \<Rightarrow> pm(h \<mapsto> merged r e)
      | None \<Rightarrow> pm(h \<mapsto> r))"

fun dedup ::
  "(uintptr \<rightharpoonup> MemProfileRecord) \<Rightarrow> MemProfileRecord list \<Rightarrow> (uintptr \<rightharpoonup> MemProfileRecord)" where
  "dedup pm [] = pm"
| "dedup pm (r # rs) = dedup (dedup_step pm r) rs"

text \<open>
  \<^verbatim>\<open>for _, r := range pm { p = append(p, r) }\<close>: Go visits the keys of a map in an order
  it does not specify.  The order is the parameter \<open>ks\<close>, a list of the keys of \<open>pm\<close>,
  each once.
\<close>

definition iteration_order :: "uintptr list \<Rightarrow> (uintptr \<rightharpoonup> MemProfileRecord) \<Rightarrow> bool" where
  "iteration_order ks pm \<longleftrightarrow> distinct ks \<and> set ks = dom pm"

definition range_map :: "uintptr list \<Rightarrow> (uintptr \<rightharpoonup> MemProfileRecord) \<Rightarrow> MemProfileRecord list" where
  "range_map ks pm = List.map_filter pm ks"

section \<open>Sorting\<close>

text \<open>The four \<^verbatim>\<open>Less\<close> methods; \<^verbatim>\<open>>\<close> on \<^verbatim>\<open>int64\<close> is the signed comparison.\<close>

definition byInUseBytes_Less :: "MemProfileRecord \<Rightarrow> MemProfileRecord \<Rightarrow> bool" where
  "byInUseBytes_Less xi xj \<longleftrightarrow> sint (InUseBytes xi) > sint (InUseBytes xj)"

definition byAllocBytes_Less :: "MemProfileRecord \<Rightarrow> MemProfileRecord \<Rightarrow> bool" where
  "byAllocBytes_Less xi xj \<longleftrightarrow> sint (AllocBytes xi) > sint (AllocBytes xj)"

definition byAllocObjects_Less :: "MemProfileRecord \<Rightarrow> MemProfileRecord \<Rightarrow> bool" where
  "byAllocObjects_Less xi xj \<longleftrightarrow> sint (AllocObjects xi) > sint (AllocObjects xj)"

definition byInUseObjects_Less :: "MemProfileRecord \<Rightarrow> MemProfileRecord \<Rightarrow> bool" where
  "byInUseObjects_Less xi xj \<longleftrightarrow> sint (InUseObjects xi) > sint (InUseObjects xj)"

text \<open>
  \<^verbatim>\<open>sort.Sort\<close> belongs to the Go standard library.  It is modelled by an insertion sort
  that, like the library, only looks at the data through \<^verbatim>\<open>Less\<close>; the library's
  algorithm is not stable, and nothing below depends on the order of ties.
\<close>

fun sort_insert :: "('a \<Rightarrow> 'a \<Rightarrow> bool) \<Rightarrow> 'a \<Rightarrow> 'a list \<Rightarrow> 'a list" where
  "sort_insert lessf x [] = [x]"
| "sort_insert lessf x (y # ys) =
     (if lessf y x then y # sort_insert lessf x ys else x # y # ys)"

fun sort_Sort :: "('a \<Rightarrow> 'a \<Rightarrow> bool) \<Rightarrow> 'a list \<Rightarrow> 'a list" where
  "sort_Sort lessf [] = []"
| "sort_Sort lessf (x # xs) = sort_insert lessf x (sort_Sort lessf xs)"

text \<open>The \<^verbatim>\<open>switch\<close> on the form value \<^verbatim>\<open>sort\<close> (lines 145 to 154).\<close>

definition sort_records :: "string \<Rightarrow> MemProfileRecord list \<Rightarrow> MemProfileRecord list" where
  "sort_records sortv p =
     (if sortv = ''allocbytes'' then sort_Sort byAllocBytes_Less p
      else if sortv = ''allocobjects'' then sort_Sort byAllocObjects_Less p
      else if sortv = ''inuseobjects'' then sort_Sort byInUseObjects_Less p
      else sort_Sort byInUseBytes_Less p)"

text \<open>The records \<^verbatim>\<open>Heap\<close> renders: lines 117 to 154, from the raw profile \<open>p\<close>.\<close>

definition Heap_records :: "uintptr list \<Rightarrow> string \<Rightarrow> MemProfileRecord list \<Rightarrow> MemProfileRecord list" where
  "Heap_records ks sortv p = sort_records sortv (range_map ks (dedup Map.empty p))"

section \<open>Totals\<close>

text \<open>\<^verbatim>\<open>var total runtime.MemProfileRecord\<close> and the loop that fills it (lines 158 to 164).\<close>

definition zero_record :: MemProfileRecord where
  "zero_record =
     \<lparr>AllocBytes = 0, FreeBytes = 0, AllocObjects = 0, FreeObjects = 0, Stack0 = replicate 32 0\<rparr>"

fun total_loop :: "MemProfileRecord \<Rightarrow> MemProfileRecord list \<Rightarrow> MemProfileRecord" where
  "total_loop tot [] = tot"
| "total_loop tot (r # rs) =
     total_loop
       (tot\<lparr>AllocBytes := AllocBytes tot + AllocBytes r,
              AllocObjects := AllocObjects tot + AllocObjects r,
              FreeBytes := FreeBytes tot + FreeBytes r,
              FreeObjects := FreeObjects tot + FreeObjects r\<rparr>) rs"

section \<open>Stack traces\<close>

text \<open>
  What \<^verbatim>\<open>printStackRecord\<close> asks of the Go runtime: \<^verbatim>\<open>runtime.GOARCH\<close>,
  \<^verbatim>\<open>runtime.FuncForPC\<close> (\<open>None\<close> for \<^verbatim>\<open>nil\<close>) and, of a \<^verbatim>\<open>*runtime.Func\<close>, its
  \<^verbatim>\<open>Entry()\<close>, \<^verbatim>\<open>Name()\<close> and \<^verbatim>\<open>FileLine(pc)\<close>; \<^verbatim>\<open>runtime.MemProfileRate\<close> is read by
  \<^verbatim>\<open>Heap\<close>.  They are parameters of the model.
\<close>

record Func =
  Entry :: uintptr
  Name :: string
  FileLine :: "uintptr \<Rightarrow> string \<times> int"

record runtime_env =
  GOARCH :: string
  FuncForPC :: "uintptr \<Rightarrow> Func option"
  MemProfileRate :: int

text \<open>
  The lines written to the response, one constructor for each format string of
  \<^verbatim>\<open>bpprof.go\<close>, with the arguments of the \<^verbatim>\<open>Fprintf\<close> call:
  \<^item> \<open>AddrLine pc\<close> is \<^verbatim>\<open>"#\t%#x\n"\<close>;
  \<^item> \<open>FrameLine pc name off file line\<close> is \<^verbatim>\<open>"#\t%#x\t%s+%#x\t%s:%d\n"\<close>;
  \<^item> \<open>Blank\<close> is \<^verbatim>\<open>"\n"\<close>, the end of a stack trace;
  \<^item> \<open>Header io ib ao ab rate\<close> is \<^verbatim>\<open>"heap profile: %d: %d [%d: %d] @ heap/%d\n"\<close>;
  \<^item> \<open>HeaderComment io ib ao ab rate\<close> is \<^verbatim>\<open>"# heap profile: %d: %s [%d: %s] @ heap/%d\n\n"\<close>;
  \<^item> \<open>RecordLine io ib ao ab stk\<close> is \<^verbatim>\<open>"%d: %d [%d: %d] @"\<close>, then \<^verbatim>\<open>" %#x"\<close> for each
    address of \<open>stk\<close>;
  \<^item> \<open>RecordComment io ib ao ab\<close> is \<^verbatim>\<open>"\n# %d: %s [%d: %s]\n"\<close>.
\<close>

datatype out_line =
    AddrLine uintptr
  | FrameLine uintptr string uintptr string int
  | Blank
  | Header int64 int64 int64 int64 int
  | HeaderComment int64 string int64 string int
  | RecordLine int64 int64 int64 int64 "uintptr list"
  | RecordComment int64 string int64 string

text \<open>
  \<^verbatim>\<open>tracepc\<close> (lines 70 to 78): the address passed to \<^verbatim>\<open>FileLine\<close> for the frame at index
  \<open>i\<close>, whose address \<open>pc\<close> resolved to the function \<open>f\<close>.
\<close>

definition tracepc_of :: "runtime_env \<Rightarrow> nat \<Rightarrow> uintptr \<Rightarrow> Func \<Rightarrow> bool \<Rightarrow> uintptr" where
  "tracepc_of env i pc f wasPanic =
     (if 0 < i \<and> Entry f < pc \<and> \<not> wasPanic then
        (if GOARCH env = ''386'' \<or> GOARCH env = ''amd64'' then pc - 1 else pc - 4)
      else pc)"

text \<open>
  The loop of \<^verbatim>\<open>printStackRecord\<close> (lines 63 to 90) from index \<open>i\<close> on, with the values of
  \<^verbatim>\<open>show\<close> and \<^verbatim>\<open>wasPanic\<close> on entry.  It returns the lines written, the address passed
  to \<^verbatim>\<open>FileLine\<close> for each frame (\<open>None\<close> for a frame with no function) and the final
  value of \<^verbatim>\<open>show\<close>.
\<close>

fun stack_loop ::
  "runtime_env \<Rightarrow> nat \<Rightarrow> bool \<Rightarrow> bool \<Rightarrow> uintptr list
     \<Rightarrow> out_line list \<times> uintptr option list \<times> bool" where
  "stack_loop env i show wasPanic [] = ([], [], show)"
| "stack_loop env i show wasPanic (pc # stk) =
     (case FuncForPC env pc of
        None \<Rightarrow>
          (case stack_loop env (Suc i) True False stk of
             (ls, lk, sh) \<Rightarrow> (AddrLine pc # ls, None # lk, sh))
      | Some f \<Rightarrow>
          (let tracepc = tracepc_of env i pc f wasPanic;
               fl = FileLine f tracepc;
               name = Name f
           in if name = ''runtime.goexit'' \<or> (\<not> show \<and> prefix ''runtime.'' name) then
                (case stack_loop env (Suc i) show (name = ''runtime.panic'') stk of
                   (ls, lk, sh) \<Rightarrow> (ls, Some tracepc # lk, sh))
              else
                (case stack_loop env (Suc i) True (name = ''runtime.panic'') stk of
                   (ls, lk, sh) \<Rightarrow>
                     (FrameLine pc name (pc - Entry f) (fst fl) (snd fl) # ls,
                      Some tracepc # lk, sh))))"

text \<open>
  \<^verbatim>\<open>printStackRecord(w, stk, allFrames)\<close>.  The result is the number of times the function
  was entered, this call included, and the lines written to \<^verbatim>\<open>w\<close>.
\<close>

function printStackRecord :: "runtime_env \<Rightarrow> uintptr list \<Rightarrow> bool \<Rightarrow> nat \<times> out_line list" where
  "printStackRecord env stk allFrames =
     (case stack_loop env 0 allFrames False stk of
        (ls, lk, sh) \<Rightarrow>
          if \<not> sh then
            (case printStackRecord env stk True of (n, ls') \<Rightarrow> (Suc n, ls @ ls'))
          else (1, ls @ [Blank]))"
  by pat_completeness auto
termination
proof (relation "measure (\<lambda>(env, stk, allFrames). if allFrames then 0 else 1)")
  show "wf (measure (\<lambda>(env :: runtime_env, stk :: uintptr list, allFrames). if allFrames then 0 else 1))"
    by simp
next
  fix env :: runtime_env and stk :: "uintptr list" and allFrames :: bool
    and ls :: "out_line list" and y :: "uintptr option list \<times> bool"
    and lk :: "uintptr option list" and sh :: bool
  assume "(ls, y) = stack_loop env 0 allFrames False stk"
    and "(lk, sh) = y" and nsh: "\<not> sh"
  then have res: "stack_loop env 0 allFrames False stk = (ls, lk, sh)"
    by simp
  have keep: "stack_loop env i True wp s = (a, b, c) \<Longrightarrow> c" for i wp s a b c
    by (induction s arbitrary: i wp a b c)
      (auto simp: Let_def split: option.splits prod.splits if_splits)
  have "\<not> allFrames"
  proof
    assume "allFrames"
    with keep [of 0 False stk ls lk sh] res have sh by simp
    with nsh show False by simp
  qed
  then show "((env, stk, True), env, stk, allFrames)
      \<in> measure (\<lambda>(env, stk, allFrames). if allFrames then 0 else 1)"
    by simp
qed

declare printStackRecord.simps [simp del]

section \<open>The heap profile\<close>

text \<open>The three writes for one record (lines 180 to 189).\<close>

definition render_record :: "runtime_env \<Rightarrow> MemProfileRecord \<Rightarrow> out_line list" where
  "render_record env r =
     [RecordLine (InUseObjects r) (InUseBytes r) (AllocObjects r) (AllocBytes r) (Stack r),
      RecordComment (InUseObjects r) (formatSize (sint (InUseBytes r)))
        (AllocObjects r) (formatSize (sint (AllocBytes r)))]
     @ snd (printStackRecord env (Stack r) False)"

text \<open>
  \<^verbatim>\<open>Heap\<close> from line 117 to line 190: the header, its comment and the records, for the
  raw profile \<open>p\<close> that \<^verbatim>\<open>runtime.MemProfile\<close> returned and the value \<open>sortv\<close> of the form
  field \<^verbatim>\<open>sort\<close>.
\<close>

definition Heap_profile ::
  "runtime_env \<Rightarrow> uintptr list \<Rightarrow> string \<Rightarrow> MemProfileRecord list \<Rightarrow> out_line list" where
  "Heap_profile env ks sortv p =
     (let p' = Heap_records ks sortv p;
          total = total_loop zero_record p'
      in Header (InUseObjects total) (InUseBytes total) (AllocObjects total) (AllocBytes total)
           (2 * MemProfileRate env)
         # HeaderComment (InUseObjects total) (formatSize (sint (InUseBytes total)))
             (AllocObjects total) (formatSize (sint (AllocBytes total)))
             (2 * MemProfileRate env)
         # concat (map (render_record env) p'))"

section \<open>Pause history\<close>

text \<open>
  The two fields of \<^verbatim>\<open>runtime.MemStats\<close> read by lines 199 to 214: \<^verbatim>\<open>NumGC uint32\<close> and the
  circular buffer \<^verbatim>\<open>PauseNs [256]uint64\<close>, a list of 256 entries here.  The most recent
  pause is at index \<^verbatim>\<open>(NumGC+255)%256\<close>.
\<close>

record MemStats =
  NumGC :: uint32
  PauseNs :: "uint64 list"

text \<open>
  \<^verbatim>\<open>for i := start; i > bound; i-- { ... }\<close>: both loops have this shape.  The index is
  the value of the \<^verbatim>\<open>uint32\<close> \<^verbatim>\<open>i\<close>; it is decremented only when it is above \<open>bound\<close>, so
  it never wraps.  The state is \<^verbatim>\<open>pauseNs\<close> and \<^verbatim>\<open>pauseNsLongest\<close>; \<^verbatim>\<open>time.Duration\<close> is an
  \<^verbatim>\<open>int64\<close>, compared as a signed number.
\<close>

function pause_loop :: "uint64 list \<Rightarrow> nat \<Rightarrow> nat \<Rightarrow> int64 list \<times> int64 \<Rightarrow> int64 list \<times> int64" where
  "pause_loop P i bound st =
     (if bound < i then
        pause_loop P (i - 1) bound
          (fst st @ [P ! i], if sint (snd st) < sint (P ! i) then P ! i else snd st)
      else st)"
  by pat_completeness auto
termination
  by (relation "measure (\<lambda>(P, i, bound, st). i)") auto

declare pause_loop.simps [simp del]

definition pauseNs :: "MemStats \<Rightarrow> int64 list \<times> int64" where
  "pauseNs s =
     (let k = unat ((NumGC s + 255) mod 256);
          st1 = pause_loop (PauseNs s) k 0 ([], 0);
          st2 = pause_loop (PauseNs s) 255 k st1
      in st2)"

section \<open>The aggregation key as the specification words it\<close>

text \<open>
  The hash in the words of the specification: from \<open>h = 0\<close>, for each stack address in
  order \<open>h := h + pc\<close>, \<open>h := h + (h << 10)\<close>, \<open>h := h xor (h >> 6)\<close>, and at the end
  \<open>h := h + (h << 3)\<close>, \<open>h := h xor (h >> 11)\<close>, on 64 bits.
\<close>

definition spec_key :: "uintptr list \<Rightarrow> uintptr" where
  "spec_key stk =
     (let h = foldl (\<lambda>h pc. let h = h + pc; h = h + push_bit 10 h; h = h XOR drop_bit 6 h in h)
                0 stk;
          h = h + push_bit 3 h;
          h = h XOR drop_bit 11 h
      in h)"

section \<open>Vocabulary of the properties\<close>

text \<open>
  The figures of a record line, \<^verbatim>\<open>InUseObjects\<close>, \<^verbatim>\<open>InUseBytes\<close>, \<^verbatim>\<open>AllocObjects\<close> and
  \<^verbatim>\<open>AllocBytes\<close>, and their sequence in a rendered profile.
\<close>

definition figures :: "MemProfileRecord \<Rightarrow> int64 \<times> int64 \<times> int64 \<times> int64" where
  "figures r = (InUseObjects r, InUseBytes r, AllocObjects r, AllocBytes r)"

fun figures_of :: "out_line \<Rightarrow> (int64 \<times> int64 \<times> int64 \<times> int64) list" where
  "figures_of (RecordLine io ib ao ab stk) = [(io, ib, ao, ab)]"
| "figures_of l = []"

definition record_figures :: "out_line list \<Rightarrow> (int64 \<times> int64 \<times> int64 \<times> int64) list" where
  "record_figures out = concat (map figures_of out)"

text \<open>Every record of the map is stored under the hash of its own stack.\<close>

definition keyed :: "(uintptr \<rightharpoonup> MemProfileRecord) \<Rightarrow> bool" where
  "keyed pm \<longleftrightarrow> (\<forall>k e. pm k = Some e \<longrightarrow> stack_hash (Stack0 e) = k)"

text \<open>
  Frames by what \<^verbatim>\<open>FuncForPC\<close> says of their address: the panic entry \<^verbatim>\<open>runtime.panic\<close>,
  the exit frame \<^verbatim>\<open>runtime.goexit\<close>, and the functions of the runtime, whose names start
  with \<^verbatim>\<open>runtime.\<close>.
\<close>

definition was_panic :: "runtime_env \<Rightarrow> uintptr \<Rightarrow> bool" where
  "was_panic env pc =
     (case FuncForPC env pc of None \<Rightarrow> False | Some g \<Rightarrow> Name g = ''runtime.panic'')"

definition is_goexit :: "runtime_env \<Rightarrow> uintptr \<Rightarrow> bool" where
  "is_goexit env pc =
     (case FuncForPC env pc of None \<Rightarrow> False | Some f \<Rightarrow> Name f = ''runtime.goexit'')"

definition internal_frame :: "runtime_env \<Rightarrow> uintptr \<Rightarrow> bool" where
  "internal_frame env pc =
     (case FuncForPC env pc of None \<Rightarrow> False | Some f \<Rightarrow> prefix ''runtime.'' (Name f))"

text \<open>The addresses of the frames printed in a stack trace, in order.\<close>

fun frame_pc :: "out_line \<Rightarrow> uintptr list" where
  "frame_pc (AddrLine pc) = [pc]"
| "frame_pc (FrameLine pc name off file line) = [pc]"
| "frame_pc l = []"

definition printed_frames :: "out_line list \<Rightarrow> uintptr list" where
  "printed_frames out = concat (map frame_pc out)"

section \<open>A symbol table and a profile for the examples\<close>

text \<open>
  Four functions of 4096 bytes each, from address 4096 on: \<^verbatim>\<open>main.alloc\<close>,
  \<^verbatim>\<open>runtime.mallocgc\<close>, \<^verbatim>\<open>runtime.panic\<close> and \<^verbatim>\<open>runtime.goexit\<close>; no function elsewhere.
  The line reported for an address is its offset in the function, so that the address
  passed to \<^verbatim>\<open>FileLine\<close> shows in the output.
\<close>

definition demo_func :: "uintptr \<Rightarrow> string \<Rightarrow> Func" where
  "demo_func entry name =
     \<lparr>Entry = entry, Name = name, FileLine = (\<lambda>pc. (name @ ''.go'', int (unat (pc - entry))))\<rparr>"

definition demo_env :: runtime_env where
  "demo_env =
     \<lparr>GOARCH = ''amd64'',
      FuncForPC = (\<lambda>pc.
        if 4096 \<le> pc \<and> pc < 8192 then Some (demo_func 4096 ''main.alloc'')
        else if 8192 \<le> pc \<and> pc < 12288 then Some (demo_func 8192 ''runtime.mallocgc'')
        else if 12288 \<le> pc \<and> pc < 16384 then Some (demo_func 12288 ''runtime.panic'')
        else if 16384 \<le> pc \<and> pc < 20480 then Some (demo_func 16384 ''runtime.goexit'')
        else None),
      MemProfileRate = 524288\<rparr>"

text \<open>
  Three raw records: the first and the third have the same stack, the second another
  one.
\<close>

definition demo_stack1 :: "uintptr list" where
  "demo_stack1 = 8200 # 4100 # replicate 30 0"

definition demo_stack2 :: "uintptr list" where
  "demo_stack2 = 8200 # 4200 # replicate 30 0"

definition demo_profile :: "MemProfileRecord list" where
  "demo_profile =
     [\<lparr>AllocBytes = 4096, FreeBytes = 1024, AllocObjects = 4, FreeObjects = 1,
       Stack0 = demo_stack1\<rparr>,
      \<lparr>AllocBytes = 8192, FreeBytes = 8000, AllocObjects = 2, FreeObjects = 0,
       Stack0 = demo_stack2\<rparr>,
      \<lparr>AllocBytes = 2048, FreeBytes = 0, AllocObjects = 2, FreeObjects = 0,
       Stack0 = demo_stack1\<rparr>]"

section \<open>Properties of formatSize\<close>

lemmas formatSize_eval =
  formatSize_def units_def float64_of_int64_def sprintf_2f_def sprintf_0f_def
  round_half_even_def digit_def Let_def

text \<open>
  Claim C4, as amended.  \<^verbatim>\<open>formatSize(999)\<close> is \<^verbatim>\<open>"999.00B"\<close> and \<^verbatim>\<open>formatSize(1024)\<close> is
  \<^verbatim>\<open>"1.00KB"\<close>; \<^verbatim>\<open>formatSize(1024*1024*1024*1024*2)\<close> is \<^verbatim>\<open>"2.00TB"\<close>: it ends in \<^verbatim>\<open>"TB"\<close>
  and has two decimal places, since the value 2 is below 1000 when the loop reaches the
  unit \<^verbatim>\<open>"TB"\<close>.
\<close>

theorem formatSize_examples:
  "formatSize 999 = ''999.00B'' \<and> formatSize 1024 = ''1.00KB'' \<and>
   formatSize (1024 * 1024 * 1024 * 1024 * 2) = ''2.00TB''"
  by (simp add: formatSize_eval)

text \<open>
  Claim C4 as stated fails in its third part: the rendering of two tebibytes contains a
  decimal point.
\<close>

theorem formatSize_two_TiB_has_decimals:
  "CHR ''.'' \<in> set (formatSize (1024 * 1024 * 1024 * 1024 * 2))"
  by (simp add: formatSize_eval)

text \<open>
  Claim C9, as amended.  For every size from 1000 to 1023 \<^verbatim>\<open>formatSize\<close> returns a string
  with the unit \<^verbatim>\<open>"KB"\<close>, never \<^verbatim>\<open>"B"\<close>: \<^verbatim>\<open>"0.98KB"\<close> from 1000 to 1008, \<^verbatim>\<open>"0.99KB"\<close> from
  1009 to 1018, and \<^verbatim>\<open>"1.00KB"\<close> from 1019 to 1023, where \<^verbatim>\<open>"%.2f"\<close> rounds the quotient
  up to one.
\<close>

theorem formatSize_1000_to_1023:
  assumes "1000 \<le> sz" and "sz \<le> 1023"
  shows "formatSize sz =
    (if sz \<le> 1008 then ''0.98KB'' else if sz \<le> 1018 then ''0.99KB'' else ''1.00KB'')"
proof -
  from assms have
     "sz = 1000 \<or> sz = 1001 \<or> sz = 1002 \<or> sz = 1003 \<or> sz = 1004 \<or> sz = 1005 \<or>
      sz = 1006 \<or> sz = 1007 \<or> sz = 1008 \<or> sz = 1009 \<or> sz = 1010 \<or> sz = 1011 \<or>
      sz = 1012 \<or> sz = 1013 \<or> sz = 1014 \<or> sz = 1015 \<or> sz = 1016 \<or> sz = 1017 \<or>
      sz = 1018 \<or> sz = 1019 \<or> sz = 1020 \<or> sz = 1021 \<or> sz = 1022 \<or> sz = 1023"
    by arith
  then show ?thesis
    by (elim disjE; simp add: formatSize_eval)
qed

theorem formatSize_1000_to_1023_witness:
  "(1000::int) \<le> 1000 \<and> (1000::int) \<le> 1023 \<and> formatSize 1000 = ''0.98KB''"
  using formatSize_1000_to_1023 [of 1000] by simp

text \<open>
  Claim C9 as stated fails from 1019 on: the numeric part of \<^verbatim>\<open>formatSize(1023)\<close> is
  1.00, not below it.
\<close>

theorem formatSize_1023_is_one_KB: "formatSize 1023 = ''1.00KB''"
  by (simp add: formatSize_eval)

section \<open>The aggregation key\<close>

lemma hash_loop_foldl: "hash_loop h stk = foldl hash_mix h stk"
  by (induction stk arbitrary: h) simp_all

lemma hash_mix_fun:
  "hash_mix = (\<lambda>h pc. let h = h + pc; h = h + push_bit 10 h; h = h XOR drop_bit 6 h in h)"
  by (simp add: fun_eq_iff hash_mix_def)

lemma stack_hash_spec_key: "stack_hash stk = spec_key stk"
  by (simp add: stack_hash_def spec_key_def hash_loop_foldl hash_mix_fun)

lemma dedup_step_stores:
  "\<exists>e. dedup_step pm r = pm(stack_hash (Stack0 r) \<mapsto> e) \<and> Stack0 e = Stack0 r"
proof (cases "pm (stack_hash (Stack0 r))")
  case None
  then have "dedup_step pm r = pm(stack_hash (Stack0 r) \<mapsto> r)"
    by (simp add: dedup_step_def)
  then show ?thesis by blast
next
  case (Some a)
  then have "dedup_step pm r = pm(stack_hash (Stack0 r) \<mapsto> merged r a)"
    by (simp add: dedup_step_def)
  moreover have "Stack0 (merged r a) = Stack0 r" by (simp add: merged_def)
  ultimately show ?thesis by blast
qed

text \<open>The keys of the two stacks of the example profile, all 32 entries folded in.\<close>

lemma replicate_numeral: "replicate (numeral k) x = x # replicate (pred_numeral k) x"
  by (simp add: numeral_eq_Suc)

lemma demo_hash1: "stack_hash demo_stack1 = 15106844633065042878"
  by (simp add: demo_stack1_def stack_hash_def hash_mix_def Let_def replicate_numeral)

lemma demo_hash2: "stack_hash demo_stack2 = 7165845124064202093"
  by (simp add: demo_stack2_def stack_hash_def hash_mix_def Let_def replicate_numeral)

text \<open>
  Claim C6, as amended.  The aggregation key under which \<^verbatim>\<open>Heap\<close> merges a record is the
  hash obtained from \<open>h = 0\<close> by \<open>h := h + pc\<close>, \<open>h := h + (h << 10)\<close>,
  \<open>h := h xor (h >> 6)\<close> for each of the 32 entries \<open>pc\<close> of the array \<^verbatim>\<open>r.Stack0\<close> in order,
  that is the stack addresses and then the zeros that fill the array, followed by
  \<open>h := h + (h << 3)\<close>, \<open>h := h xor (h >> 11)\<close>, on 64 bits; one turn of the deduplication
  loop stores a record with the stack of \<^verbatim>\<open>r\<close> under exactly that key.
\<close>

theorem stack_hash_is_spec_key:
  "stack_hash (Stack0 r) = spec_key (Stack0 r) \<and>
   (\<exists>e. dedup_step pm r = pm(spec_key (Stack0 r) \<mapsto> e) \<and> Stack0 e = Stack0 r)"
  using dedup_step_stores [of pm r] by (simp add: stack_hash_spec_key)

text \<open>
  Claim C6 as stated, with the hash folded over the stack addresses of the record only,
  fails for a stack of fewer than 32 frames: for the stack \<open>[8200, 4100]\<close> the recipe
  gives 77622701702 on the two addresses, and the key computed by \<^verbatim>\<open>Heap\<close>, which goes on
  through the 30 zeros of \<^verbatim>\<open>Stack0\<close>, is another number.
\<close>

theorem stack_hash_folds_padding:
  "Stack \<lparr>AllocBytes = 4096, FreeBytes = 1024, AllocObjects = 4, FreeObjects = 1,
      Stack0 = demo_stack1\<rparr> = [8200, 4100] \<and>
   spec_key (Stack \<lparr>AllocBytes = 4096, FreeBytes = 1024, AllocObjects = 4, FreeObjects = 1,
      Stack0 = demo_stack1\<rparr>) = 77622701702 \<and>
   stack_hash (Stack0 \<lparr>AllocBytes = 4096, FreeBytes = 1024, AllocObjects = 4, FreeObjects = 1,
      Stack0 = demo_stack1\<rparr>) = 15106844633065042878 \<and>
   stack_hash (Stack0 \<lparr>AllocBytes = 4096, FreeBytes = 1024, AllocObjects = 4, FreeObjects = 1,
      Stack0 = demo_stack1\<rparr>) \<noteq>
   spec_key (Stack \<lparr>AllocBytes = 4096, FreeBytes = 1024, AllocObjects = 4, FreeObjects = 1,
      Stack0 = demo_stack1\<rparr>)"
proof -
  have s: "Stack \<lparr>AllocBytes = 4096, FreeBytes = 1024, AllocObjects = 4, FreeObjects = 1,
      Stack0 = demo_stack1\<rparr> = [8200, 4100]"
    by (simp add: Stack_def demo_stack1_def replicate_numeral)
  have k: "spec_key [8200, 4100] = 77622701702"
    by (simp add: spec_key_def Let_def)
  show ?thesis
    by (simp add: s k demo_hash1)
qed

section \<open>The pause history\<close>

lemma pause_loop_fst:
  "fst (pause_loop P i b st) = fst st @ map (nth P) (rev [Suc b..<Suc i])"
proof (induction P i b st rule: pause_loop.induct)
  case (1 P i bound st)
  show ?case
  proof (cases "bound < i")
    case True
    then obtain j where j: "i = Suc j" by (cases i) auto
    with True 1 show ?thesis
      by (subst pause_loop.simps) (simp add: j)
  next
    case False
    then show ?thesis by (subst pause_loop.simps) simp
  qed
qed

lemma pauseNs_fst:
  "fst (pauseNs s) =
     map (nth (PauseNs s))
       (rev [Suc 0..<Suc (unat ((NumGC s + 255) mod 256))]
        @ rev [Suc (unat ((NumGC s + 255) mod 256))..<Suc 255])"
  unfolding pauseNs_def Let_def pause_loop_fst by simp

lemma nth_padded:
  "map (nth (x # replicate n (0::64 word))) (rev [Suc 0..<Suc n]) = replicate n 0"
proof -
  have "map (nth (x # replicate n 0)) (rev [Suc 0..<Suc n]) = map (\<lambda>_. 0) (rev [Suc 0..<Suc n])"
    by (rule map_cong) (auto simp: nth_Cons')
  then show ?thesis by (simp add: map_replicate_const)
qed

text \<open>
  Claim C5 on the code.  After one collection (\<^verbatim>\<open>NumGC = 1\<close>) the most recent pause is at
  index \<^verbatim>\<open>(1+255)%256 = 0\<close>.  With 7 ns recorded there and nothing else in the buffer, the
  sequence printed for \<^verbatim>\<open>PauseNs\<close> is 255 zeros: index 0 is visited by neither loop, so
  the most recent pause is not first, it is absent.
\<close>

theorem pauseNs_drops_index_0:
  "fst (pauseNs \<lparr>NumGC = 1, PauseNs = 7 # replicate 255 0\<rparr>) = replicate 255 0"
proof -
  have k: "unat (((1::32 word) + 255) mod 256) = 0" by simp
  have "fst (pauseNs \<lparr>NumGC = 1, PauseNs = 7 # replicate 255 0\<rparr>)
      = map (nth (7 # replicate 255 (0::64 word))) (rev [Suc 0..<Suc 255])"
    unfolding pauseNs_fst
    by (simp only: MemStats.simps k upt_rec [of "Suc 0" "Suc 0"] rev.simps append_Nil
        less_irrefl if_False)
  then show ?thesis by (simp only: nth_padded)
qed

section \<open>Properties of the stack traces\<close>

lemma stack_loop_True: "snd (snd (stack_loop env i True wp stk))"
  by (induction stk arbitrary: i wp)
    (simp_all add: case_prod_beta Let_def split: option.splits)

lemma printStackRecord_True:
  "printStackRecord env stk True = (1, fst (stack_loop env 0 True False stk) @ [Blank])"
  using stack_loop_True [of env 0 False stk]
  by (subst printStackRecord.simps) (simp add: case_prod_beta)

lemma printStackRecord_False:
  "printStackRecord env stk False =
     (if snd (snd (stack_loop env 0 False False stk))
      then (1, fst (stack_loop env 0 False False stk) @ [Blank])
      else (2, fst (stack_loop env 0 False False stk)
                @ fst (stack_loop env 0 True False stk) @ [Blank]))"
  by (subst printStackRecord.simps) (simp add: case_prod_beta printStackRecord_True)

lemma printStackRecord_calls: "fst (printStackRecord env stk allFrames) \<le> 2"
  by (cases allFrames) (simp_all add: printStackRecord_True printStackRecord_False)

lemma stack_loop_lookup:
  assumes "j < length stk" and "FuncForPC env (stk ! j) = Some f"
  shows "fst (snd (stack_loop env i sh wp stk)) ! j =
    Some (tracepc_of env (i + j) (stk ! j) f
      (if j = 0 then wp else was_panic env (stk ! (j - 1))))"
  using assms
proof (induction stk arbitrary: i sh wp j)
  case Nil
  then show ?case by simp
next
  case (Cons pc stk)
  show ?case
  proof (cases j)
    case 0
    with Cons.prems show ?thesis
      by (simp add: case_prod_beta Let_def)
  next
    case (Suc j')
    with Cons.prems have j': "j' < length stk" and f: "FuncForPC env (stk ! j') = Some f"
      by simp_all
    have step: "fst (snd (stack_loop env i sh wp (pc # stk))) ! j =
        fst (snd (stack_loop env (Suc i) sh' (was_panic env pc) stk)) ! j'"
      if "sh' = (case FuncForPC env pc of None \<Rightarrow> True | Some g \<Rightarrow>
            if Name g = ''runtime.goexit'' \<or> (\<not> sh \<and> prefix ''runtime.'' (Name g))
            then sh else True)"
      for sh'
      using that Suc
      by (simp add: case_prod_beta Let_def was_panic_def split: option.splits)
    have prev: "(pc # stk) ! j' = (if j' = 0 then pc else stk ! (j' - 1))"
      by (cases j') simp_all
    let ?sh' = "case FuncForPC env pc of None \<Rightarrow> True | Some g \<Rightarrow>
            if Name g = ''runtime.goexit'' \<or> (\<not> sh \<and> prefix ''runtime.'' (Name g))
            then sh else True"
    have "fst (snd (stack_loop env i sh wp (pc # stk))) ! j =
        fst (snd (stack_loop env (Suc i) ?sh' (was_panic env pc) stk)) ! j'"
      by (rule step [OF refl])
    also have "\<dots> = Some (tracepc_of env (Suc i + j') (stk ! j') f
        (if j' = 0 then was_panic env pc else was_panic env (stk ! (j' - 1))))"
      by (rule Cons.IH [OF j' f])
    also have "\<dots> = Some (tracepc_of env (i + j) ((pc # stk) ! j) f
        (if j = 0 then wp else was_panic env ((pc # stk) ! (j - 1))))"
      using Suc by (simp add: prev)
    finally show ?thesis .
  qed
qed

lemma stack_loop_internal:
  assumes "\<forall>pc \<in> set stk. internal_frame env pc"
  shows "stack_loop env i False wp stk = ([], fst (snd (stack_loop env i False wp stk)), False)"
  using assms
proof (induction stk arbitrary: i wp)
  case Nil
  then show ?case by simp
next
  case (Cons pc stk)
  from Cons.prems obtain f where f: "FuncForPC env pc = Some f" "prefix ''runtime.'' (Name f)"
    by (auto simp: internal_frame_def split: option.splits)
  from Cons.prems have "\<forall>pc \<in> set stk. internal_frame env pc" by simp
  note ih = Cons.IH [OF this, of "Suc i" "Name f = ''runtime.panic''"]
  show ?case
    using f
    by (subst (1 2) stack_loop.simps)
      (simp add: Let_def case_prod_beta, metis ih fst_conv snd_conv prod.collapse)
qed

lemma printed_frames_append: "printed_frames (xs @ ys) = printed_frames xs @ printed_frames ys"
  by (simp add: printed_frames_def)

lemma printed_frames_True:
  "printed_frames (fst (stack_loop env i True wp stk)) = filter (\<lambda>pc. \<not> is_goexit env pc) stk"
  by (induction stk arbitrary: i wp)
    (simp_all add: case_prod_beta Let_def printed_frames_def is_goexit_def split: option.splits)

lemma stack_loop_append_None:
  assumes "FuncForPC env pc = None"
  shows "fst (stack_loop env i sh wp (pre @ pc # post)) =
    fst (stack_loop env i sh wp pre) @ AddrLine pc
      # fst (stack_loop env (Suc (i + length pre)) True False post)"
  using assms
  by (induction pre arbitrary: i sh wp)
    (simp_all add: case_prod_beta Let_def split: option.splits)

lemmas demo_eval = demo_env_def demo_func_def tracepc_of_def was_panic_def Let_def

text \<open>
  Claim C7, as amended.  In the loop of \<^verbatim>\<open>printStackRecord\<close>, in either pass, the address
  passed to \<^verbatim>\<open>FileLine\<close> for a frame that resolves to a function \<open>f\<close> is the frame's address
  moved back by one byte on 386 and amd64 and by four bytes on any other architecture,
  when the frame is not the innermost one, its address is above the entry of \<open>f\<close>, and
  the frame before it is not one that resolved to \<^verbatim>\<open>runtime.panic\<close>; otherwise it is
  the frame's address itself.
\<close>

theorem lookup_address:
  assumes "j < length stk" and "FuncForPC env (stk ! j) = Some f"
  shows "fst (snd (stack_loop env 0 allFrames False stk)) ! j =
    Some (if 0 < j \<and> Entry f < stk ! j \<and> \<not> was_panic env (stk ! (j - 1)) then
            (if GOARCH env = ''386'' \<or> GOARCH env = ''amd64'' then stk ! j - 1 else stk ! j - 4)
          else stk ! j)"
  using stack_loop_lookup [OF assms, of 0 allFrames False]
  by (auto simp: tracepc_of_def)

theorem lookup_address_witness:
  "fst (snd (stack_loop demo_env 0 False False [8200, 4100, 12300, 4200, 99])) =
     [Some 8200, Some 4099, Some 12299, Some 4200, None] \<and>
   fst (snd (stack_loop (demo_env\<lparr>GOARCH := ''arm''\<rparr>) 0 False False [8200, 4100])) ! 1 =
     Some 4096"
proof -
  have "fst (snd (stack_loop demo_env 0 False False [8200, 4100, 12300, 4200, 99])) ! 1 =
      Some 4099"
    using lookup_address [of 1 "[8200, 4100, 12300, 4200, 99]" demo_env
        "demo_func 4096 ''main.alloc''" False]
    by (simp add: demo_eval)
  moreover have
    "fst (snd (stack_loop (demo_env\<lparr>GOARCH := ''arm''\<rparr>) 0 False False [8200, 4100])) ! 1 =
      Some 4096"
    using lookup_address [of 1 "[8200, 4100]" "demo_env\<lparr>GOARCH := ''arm''\<rparr>"
        "demo_func 4096 ''main.alloc''" False]
    by (simp add: demo_eval)
  moreover have "fst (snd (stack_loop demo_env 0 False False [8200, 4100, 12300, 4200, 99])) =
     [Some 8200, Some 4099, Some 12299, Some 4200, None]"
    by (simp add: demo_eval)
  ultimately show ?thesis by simp
qed

text \<open>
  Claim C7 as stated fails for a frame whose address is the entry of its function: the
  second frame below is not the innermost, does not follow a panic frame, and is looked
  up at its own address 4096, not at 4095.
\<close>

theorem lookup_address_at_entry:
  "fst (snd (stack_loop demo_env 0 False False [8200, 4096])) ! 1 = Some 4096"
  by (simp add: demo_eval)

text \<open>
  Claim C8, as amended.  When every frame of the stack resolves to a function whose name
  starts with \<^verbatim>\<open>runtime.\<close>, the first pass of \<^verbatim>\<open>printStackRecord(w, stk, false)\<close> writes
  nothing, and the call makes exactly one more pass, with suppression disabled, which
  prints one line for each frame that is not \<^verbatim>\<open>runtime.goexit\<close> and then the empty line:
  the trace is non-empty when some frame is not \<^verbatim>\<open>runtime.goexit\<close>.  For every stack and
  either value of \<^verbatim>\<open>allFrames\<close> the function is entered at most twice, so it terminates.
\<close>

theorem second_pass:
  "((\<forall>pc \<in> set stk. internal_frame env pc) \<longrightarrow>
      fst (stack_loop env 0 False False stk) = [] \<and>
      printStackRecord env stk False = (2, fst (stack_loop env 0 True False stk) @ [Blank]) \<and>
      printed_frames (snd (printStackRecord env stk False)) =
        filter (\<lambda>pc. \<not> is_goexit env pc) stk) \<and>
   fst (printStackRecord env stk allFrames) \<le> 2"
proof (intro conjI impI)
  assume a: "\<forall>pc \<in> set stk. internal_frame env pc"
  have r: "stack_loop env 0 False False stk =
      ([], fst (snd (stack_loop env 0 False False stk)), False)"
    by (rule stack_loop_internal [OF a])
  then show e: "fst (stack_loop env 0 False False stk) = []" by (metis fst_conv)
  from r have n: "\<not> snd (snd (stack_loop env 0 False False stk))" by (metis snd_conv)
  show p: "printStackRecord env stk False = (2, fst (stack_loop env 0 True False stk) @ [Blank])"
    using e n by (simp add: printStackRecord_False)
  show "printed_frames (snd (printStackRecord env stk False)) =
      filter (\<lambda>pc. \<not> is_goexit env pc) stk"
    by (simp add: p printed_frames_append printed_frames_True) (simp add: printed_frames_def)
next
  show "fst (printStackRecord env stk allFrames) \<le> 2" by (rule printStackRecord_calls)
qed

theorem second_pass_witness:
  "internal_frame demo_env 8200 \<and> internal_frame demo_env 16400 \<and>
   fst (stack_loop demo_env 0 False False [8200, 16400]) = [] \<and>
   printStackRecord demo_env [8200, 16400] False =
     (2, [FrameLine 8200 ''runtime.mallocgc'' 8 ''runtime.mallocgc.go'' 8, Blank]) \<and>
   printed_frames (snd (printStackRecord demo_env [8200, 16400] False)) = [8200]"
proof -
  have i: "internal_frame demo_env 8200" "internal_frame demo_env 16400"
    by (simp_all add: internal_frame_def demo_eval)
  then have "\<forall>pc \<in> set [8200, 16400]. internal_frame demo_env pc" by simp
  with second_pass [of "[8200, 16400]" demo_env False]
  have "fst (stack_loop demo_env 0 False False [8200, 16400]) = []"
    and "printStackRecord demo_env [8200, 16400] False =
      (2, fst (stack_loop demo_env 0 True False [8200, 16400]) @ [Blank])"
    and "printed_frames (snd (printStackRecord demo_env [8200, 16400] False)) =
      filter (\<lambda>pc. \<not> is_goexit demo_env pc) [8200, 16400]"
    by blast+
  moreover have "fst (stack_loop demo_env 0 True False [8200, 16400]) =
      [FrameLine 8200 ''runtime.mallocgc'' 8 ''runtime.mallocgc.go'' 8]"
    by (simp add: demo_eval)
  moreover have "filter (\<lambda>pc. \<not> is_goexit demo_env pc) [8200, 16400] = [8200]"
    by (simp add: is_goexit_def demo_eval)
  ultimately show ?thesis using i by simp
qed

text \<open>
  Claim C8 as stated fails for a stack whose only frame is \<^verbatim>\<open>runtime.goexit\<close>, an internal
  runtime function: the second pass is made and prints no frame, only the empty line.
\<close>

theorem second_pass_goexit_only:
  "internal_frame demo_env 16400 \<and> printStackRecord demo_env [16400] False = (2, [Blank])"
  by (simp add: internal_frame_def printStackRecord_False demo_eval)

text \<open>
  Claim C10.  In the first pass, after a frame \<open>pc\<close> that resolves to no function and is
  printed as an address line, the lines written for the frames \<open>post\<close> that follow are,
  in order, one for each frame that is not \<^verbatim>\<open>runtime.goexit\<close>, whatever its name, hence
  also for the functions of the runtime; the frames named \<^verbatim>\<open>runtime.goexit\<close> have no line.
\<close>

theorem unresolved_frame_ends_suppression:
  assumes "FuncForPC env pc = None"
  shows "\<exists>rest. fst (stack_loop env 0 False False (pre @ pc # post)) =
      fst (stack_loop env 0 False False pre) @ AddrLine pc # rest \<and>
    printed_frames rest = filter (\<lambda>q. \<not> is_goexit env q) post"
  using stack_loop_append_None [OF assms, of 0 False False pre post]
    printed_frames_True [of env "Suc (length pre)" False post]
  by simp

theorem unresolved_frame_ends_suppression_witness:
  "FuncForPC demo_env 99 = None \<and>
   fst (stack_loop demo_env 0 False False ([8200] @ 99 # [8300, 16400, 4100])) =
     [AddrLine 99,
      FrameLine 8300 ''runtime.mallocgc'' 108 ''runtime.mallocgc.go'' 107,
      FrameLine 4100 ''main.alloc'' 4 ''main.alloc.go'' 3] \<and>
   (\<exists>rest. fst (stack_loop demo_env 0 False False ([8200] @ 99 # [8300, 16400, 4100])) =
      fst (stack_loop demo_env 0 False False [8200]) @ AddrLine 99 # rest \<and>
      printed_frames rest = [8300, 4100])"
proof -
  have n: "FuncForPC demo_env 99 = None" by (simp add: demo_eval)
  have f: "filter (\<lambda>q. \<not> is_goexit demo_env q) [8300, 16400, 4100] = [8300, 4100]"
    by (simp add: is_goexit_def demo_eval)
  have e: "fst (stack_loop demo_env 0 False False ([8200] @ 99 # [8300, 16400, 4100])) =
     [AddrLine 99,
      FrameLine 8300 ''runtime.mallocgc'' 108 ''runtime.mallocgc.go'' 107,
      FrameLine 4100 ''main.alloc'' 4 ''main.alloc.go'' 3]"
    by (simp add: demo_eval)
  from unresolved_frame_ends_suppression [OF n, of "[8200]" "[8300, 16400, 4100]"] n e
  show ?thesis
    by (simp only: f)
qed

section \<open>Properties of the deduplication\<close>

lemma dedup_step_other:
  "stack_hash (Stack0 r) \<noteq> k \<Longrightarrow> dedup_step pm r k = pm k"
  by (simp add: dedup_step_def Let_def split: option.splits)

lemma dedup_step_same_None:
  "pm (stack_hash (Stack0 r)) = None \<Longrightarrow> dedup_step pm r (stack_hash (Stack0 r)) = Some r"
  by (simp add: dedup_step_def)

lemma dedup_step_same_Some:
  "pm (stack_hash (Stack0 r)) = Some e \<Longrightarrow>
   dedup_step pm r (stack_hash (Stack0 r)) = Some (merged r e)"
  by (simp add: dedup_step_def)

lemma dedup_others:
  "\<forall>r \<in> set rs. stack_hash (Stack0 r) \<noteq> k \<Longrightarrow> dedup pm rs k = pm k"
  by (induction rs arbitrary: pm) (simp_all add: dedup_step_other)

lemma dedup_append: "dedup pm (xs @ ys) = dedup (dedup pm xs) ys"
  by (induction xs arbitrary: pm) simp_all

lemma Stack0_merged: "Stack0 (merged r e) = Stack0 r"
  by (simp add: merged_def)

lemma keyed_dedup_step:
  assumes "keyed pm"
  shows "keyed (dedup_step pm r)"
  unfolding keyed_def
proof (intro allI impI)
  fix k e
  assume s: "dedup_step pm r k = Some e"
  show "stack_hash (Stack0 e) = k"
  proof (cases "stack_hash (Stack0 r) = k")
    case False
    with s have "pm k = Some e" by (simp add: dedup_step_other)
    with assms show ?thesis unfolding keyed_def by blast
  next
    case True
    from dedup_step_stores [of pm r] obtain e' where
      "dedup_step pm r = pm(stack_hash (Stack0 r) \<mapsto> e')" and st: "Stack0 e' = Stack0 r"
      by blast
    with s True have "e = e'" by simp
    with st True show ?thesis by (simp only:)
  qed
qed

lemma keyed_dedup: "keyed pm \<Longrightarrow> keyed (dedup pm rs)"
  by (induction rs arbitrary: pm) (simp_all add: keyed_dedup_step)

lemma keyed_empty: "keyed Map.empty"
  by (simp add: keyed_def)

lemma dedup_pair:
  assumes "Stack0 r1 = Stack0 r2"
    and "\<forall>r \<in> set (xs @ ys @ zs). stack_hash (Stack0 r) \<noteq> stack_hash (Stack0 r1)"
  shows "dedup Map.empty (xs @ r1 # ys @ r2 # zs) (stack_hash (Stack0 r1)) = Some (merged r2 r1)"
proof -
  let ?h = "stack_hash (Stack0 r1)"
  let ?m1 = "dedup Map.empty xs"
  let ?m2 = "dedup_step ?m1 r1"
  let ?m3 = "dedup ?m2 ys"
  let ?m4 = "dedup_step ?m3 r2"
  from assms(2) have x: "\<forall>r \<in> set xs. stack_hash (Stack0 r) \<noteq> ?h"
    and y: "\<forall>r \<in> set ys. stack_hash (Stack0 r) \<noteq> ?h"
    and z: "\<forall>r \<in> set zs. stack_hash (Stack0 r) \<noteq> ?h" by auto
  have "?m1 ?h = None" using dedup_others [OF x, of Map.empty] by simp
  then have "?m2 ?h = Some r1" by (rule dedup_step_same_None)
  then have "?m3 ?h = Some r1" using dedup_others [OF y, of ?m2] by simp
  then have "?m3 (stack_hash (Stack0 r2)) = Some r1" using assms(1) by simp
  then have "?m4 (stack_hash (Stack0 r2)) = Some (merged r2 r1)" by (rule dedup_step_same_Some)
  then have "?m4 ?h = Some (merged r2 r1)" using assms(1) by simp
  then have "dedup ?m4 zs ?h = Some (merged r2 r1)" using dedup_others [OF z, of ?m4] by simp
  then show ?thesis by (simp add: dedup_append)
qed

lemma filter_eq_single: "distinct ks \<Longrightarrow> h \<in> set ks \<Longrightarrow> filter (\<lambda>k. k = h) ks = [h]"
  by (induction ks) (auto simp: filter_empty_conv)

lemma filter_map_filter:
  "filter P (List.map_filter f xs) =
   List.map_filter f (filter (\<lambda>x. case f x of None \<Rightarrow> False | Some y \<Rightarrow> P y) xs)"
  by (induction xs) (auto simp: List.map_filter_simps split: option.splits)

lemma key_selects:
  assumes "keyed pm" and "pm (stack_hash s) = Some e" and "Stack0 e = s"
  shows "(case pm k of None \<Rightarrow> False | Some y \<Rightarrow> Stack0 y = s) \<longleftrightarrow> k = stack_hash s"
proof (cases "pm k")
  case None
  then have "k \<noteq> stack_hash s" using assms(2) by (metis option.distinct(1))
  with None show ?thesis by (simp only: option.case)
next
  case (Some y)
  with assms(1) have k: "stack_hash (Stack0 y) = k" unfolding keyed_def by blast
  have "Stack0 y = s \<longleftrightarrow> k = stack_hash s"
  proof
    assume "Stack0 y = s"
    with k show "k = stack_hash s" by (simp only:)
  next
    assume "k = stack_hash s"
    with Some assms(2) have "y = e" by (simp only: option.inject)
    with assms(3) show "Stack0 y = s" by (simp only:)
  qed
  with Some show ?thesis by (simp only: option.case)
qed

lemma range_map_single:
  assumes "keyed pm" and "iteration_order ks pm" and "pm (stack_hash s) = Some e"
    and "Stack0 e = s"
  shows "filter (\<lambda>r. Stack0 r = s) (range_map ks pm) = [e]"
proof -
  note sel = key_selects [OF assms(1,3,4)]
  have "distinct ks" and "stack_hash s \<in> set ks"
    using assms(2,3) by (auto simp: iteration_order_def)
  then have "filter (\<lambda>k. k = stack_hash s) ks = [stack_hash s]"
    by (rule filter_eq_single)
  then have "filter (\<lambda>r. Stack0 r = s) (range_map ks pm) = List.map_filter pm [stack_hash s]"
    by (simp only: range_map_def filter_map_filter sel)
  also have "\<dots> = [e]"
    using assms(3) by (simp add: List.map_filter_simps)
  finally show ?thesis .
qed

section \<open>Properties of the sorting\<close>

lemma set_sort_insert: "set (sort_insert lessf x xs) = insert x (set xs)"
  by (induction xs) auto

lemma mset_sort_insert: "mset (sort_insert lessf x xs) = add_mset x (mset xs)"
  by (induction xs) auto

lemma mset_sort_Sort: "mset (sort_Sort lessf xs) = mset xs"
  by (induction xs) (auto simp: mset_sort_insert)

lemma mset_sort_records: "mset (sort_records sortv rs) = mset rs"
  by (simp add: sort_records_def mset_sort_Sort)

lemma filter_single_perm:
  assumes "mset ys = mset xs" and "filter P xs = [e]"
  shows "filter P ys = [e]"
proof -
  have "mset (filter P ys) = filter_mset P (mset ys)" by simp
  also have "\<dots> = filter_mset P (mset xs)" by (simp only: assms(1))
  also have "\<dots> = mset (filter P xs)" by simp
  finally have "mset (filter P ys) = {#e#}" by (simp only: assms(2) mset.simps)
  then show ?thesis by (simp only: mset_single_iff)
qed

lemma sorted_sort_insert:
  fixes k :: "'a \<Rightarrow> int"
  assumes less: "\<And>a b. lessf a b \<longleftrightarrow> k b < k a"
    and "sorted_wrt (\<lambda>a b. k b \<le> k a) xs"
  shows "sorted_wrt (\<lambda>a b. k b \<le> k a) (sort_insert lessf x xs)"
  using assms(2)
proof (induction xs)
  case Nil
  then show ?case by simp
next
  case (Cons y ys)
  show ?case
  proof (cases "lessf y x")
    case True
    then have "k x < k y" by (simp add: less)
    with Cons True show ?thesis
      by (auto simp: set_sort_insert)
  next
    case False
    then have "k y \<le> k x" by (simp add: less)
    with Cons.prems False show ?thesis
      by auto
  qed
qed

lemma sorted_sort_Sort:
  fixes k :: "'a \<Rightarrow> int"
  assumes "\<And>a b. lessf a b \<longleftrightarrow> k b < k a"
  shows "sorted_wrt (\<lambda>a b. k b \<le> k a) (sort_Sort lessf xs)"
  by (induction xs) (auto intro: sorted_sort_insert [OF assms])

section \<open>Records with the same stack\<close>

lemma demo_dedup:
  "dedup Map.empty demo_profile =
     [15106844633065042878 \<mapsto>
        \<lparr>AllocBytes = 6144, FreeBytes = 1024, AllocObjects = 6, FreeObjects = 1,
          Stack0 = demo_stack1\<rparr>,
      7165845124064202093 \<mapsto>
        \<lparr>AllocBytes = 8192, FreeBytes = 8000, AllocObjects = 2, FreeObjects = 0,
          Stack0 = demo_stack2\<rparr>]"
  by (simp add: demo_profile_def dedup_step_def merged_def demo_hash1 demo_hash2 fun_upd_twist)

lemma demo_order:
  "iteration_order [7165845124064202093, 15106844633065042878] (dedup Map.empty demo_profile)"
  by (auto simp add: demo_dedup iteration_order_def)

lemma demo_range:
  "range_map [7165845124064202093, 15106844633065042878] (dedup Map.empty demo_profile) =
    [\<lparr>AllocBytes = 8192, FreeBytes = 8000, AllocObjects = 2, FreeObjects = 0,
          Stack0 = demo_stack2\<rparr>,
     \<lparr>AllocBytes = 6144, FreeBytes = 1024, AllocObjects = 6, FreeObjects = 1,
          Stack0 = demo_stack1\<rparr>]"
  by (simp add: demo_dedup range_map_def List.map_filter_simps)


lemma demo_records_default:
  "Heap_records [7165845124064202093, 15106844633065042878] '''' demo_profile =
    [\<lparr>AllocBytes = 6144, FreeBytes = 1024, AllocObjects = 6, FreeObjects = 1,
          Stack0 = demo_stack1\<rparr>,
     \<lparr>AllocBytes = 8192, FreeBytes = 8000, AllocObjects = 2, FreeObjects = 0,
          Stack0 = demo_stack2\<rparr>]"
  by (simp add: Heap_records_def demo_range sort_records_def byInUseBytes_Less_def InUseBytes_def)

lemma demo_records_allocbytes:
  "Heap_records [7165845124064202093, 15106844633065042878] ''allocbytes'' demo_profile =
    [\<lparr>AllocBytes = 8192, FreeBytes = 8000, AllocObjects = 2, FreeObjects = 0,
          Stack0 = demo_stack2\<rparr>,
     \<lparr>AllocBytes = 6144, FreeBytes = 1024, AllocObjects = 6, FreeObjects = 1,
          Stack0 = demo_stack1\<rparr>]"
  by (simp add: Heap_records_def demo_range sort_records_def byAllocBytes_Less_def)

lemma demo_stacks_differ: "demo_stack2 \<noteq> demo_stack1"
  by (simp add: demo_stack1_def demo_stack2_def)

text \<open>
  Claim C1, as amended.  When the raw profile holds two records \<open>r1\<close> and \<open>r2\<close> with the
  same stack, and no other record of the profile has the aggregation key of that stack,
  the records that \<^verbatim>\<open>Heap\<close> renders hold exactly one record with that stack, whatever the
  order in which Go visits the map and whatever the sort value; its allocated bytes,
  freed bytes, allocated objects and freed objects are the sums (of \<^verbatim>\<open>int64\<close>, as \<^verbatim>\<open>+=\<close>
  computes them) of the counts of \<open>r1\<close> and \<open>r2\<close>.
\<close>

theorem merged_entry:
  assumes "p = xs @ r1 # ys @ r2 # zs"
    and "Stack0 r1 = Stack0 r2"
    and "\<forall>r \<in> set (xs @ ys @ zs). stack_hash (Stack0 r) \<noteq> stack_hash (Stack0 r1)"
    and "iteration_order ks (dedup Map.empty p)"
  shows "\<exists>e. filter (\<lambda>r. Stack0 r = Stack0 r1) (Heap_records ks sortv p) = [e] \<and>
    AllocBytes e = AllocBytes r1 + AllocBytes r2 \<and>
    FreeBytes e = FreeBytes r1 + FreeBytes r2 \<and>
    AllocObjects e = AllocObjects r1 + AllocObjects r2 \<and>
    FreeObjects e = FreeObjects r1 + FreeObjects r2"
proof -
  let ?e = "merged r2 r1"
  have pm: "dedup Map.empty p (stack_hash (Stack0 r1)) = Some ?e"
    unfolding assms(1) by (rule dedup_pair [OF assms(2,3)])
  have st: "Stack0 ?e = Stack0 r1" using assms(2) by (simp add: merged_def)
  have "filter (\<lambda>r. Stack0 r = Stack0 r1) (range_map ks (dedup Map.empty p)) = [?e]"
    by (rule range_map_single [OF keyed_dedup [OF keyed_empty] assms(4) pm st])
  then have "filter (\<lambda>r. Stack0 r = Stack0 r1) (Heap_records ks sortv p) = [?e]"
    unfolding Heap_records_def by (rule filter_single_perm [OF mset_sort_records])
  moreover have "AllocBytes ?e = AllocBytes r1 + AllocBytes r2"
    and "FreeBytes ?e = FreeBytes r1 + FreeBytes r2"
    and "AllocObjects ?e = AllocObjects r1 + AllocObjects r2"
    and "FreeObjects ?e = FreeObjects r1 + FreeObjects r2"
    by (simp_all add: merged_def add.commute)
  ultimately show ?thesis by (intro exI [of _ ?e] conjI)
qed

theorem merged_entry_witness:
  "iteration_order [7165845124064202093, 15106844633065042878] (dedup Map.empty demo_profile) \<and>
   stack_hash demo_stack2 \<noteq> stack_hash demo_stack1 \<and>
   filter (\<lambda>r. Stack0 r = demo_stack1)
     (Heap_records [7165845124064202093, 15106844633065042878] '''' demo_profile) =
     [\<lparr>AllocBytes = 4096 + 2048, FreeBytes = 1024 + 0, AllocObjects = 4 + 2, FreeObjects = 1 + 0,
       Stack0 = demo_stack1\<rparr>]"
proof -
  let ?r1 = "\<lparr>AllocBytes = 4096, FreeBytes = 1024, AllocObjects = 4, FreeObjects = 1,
       Stack0 = demo_stack1\<rparr>"
  let ?r3 = "\<lparr>AllocBytes = 8192, FreeBytes = 8000, AllocObjects = 2, FreeObjects = 0,
       Stack0 = demo_stack2\<rparr>"
  let ?r2 = "\<lparr>AllocBytes = 2048, FreeBytes = 0, AllocObjects = 2, FreeObjects = 0,
       Stack0 = demo_stack1\<rparr>"
  have p: "demo_profile = [] @ ?r1 # [?r3] @ ?r2 # []" by (simp add: demo_profile_def)
  have s: "Stack0 ?r1 = Stack0 ?r2" by simp
  have d: "stack_hash demo_stack2 \<noteq> stack_hash demo_stack1"
    by (simp add: demo_hash1 demo_hash2)
  then have o: "\<forall>r \<in> set ([] @ [?r3] @ []). stack_hash (Stack0 r) \<noteq> stack_hash (Stack0 ?r1)"
    by simp
  from merged_entry [OF p s o demo_order, where sortv = "[]"] d demo_order show ?thesis
    by (simp add: demo_records_default demo_stacks_differ)
qed

text \<open>
  Two stacks with the same key: after the first two addresses the accumulator is the
  same, whatever follows.
\<close>

lemma collide: "stack_hash (1 # 1041 # rest) = stack_hash (2 # 0 # rest)"
proof -
  have "hash_mix (hash_mix 0 1) 1041 = hash_mix (hash_mix 0 2) 0"
    by (simp add: hash_mix_def Let_def)
  then show ?thesis by (simp add: stack_hash_def)
qed

text \<open>
  Claim C1 as stated fails when a third record has the same key.  Below, two records
  with the stack \<open>[2, 0, \<dots>]\<close> are followed by one with the stack \<open>[1, 1041, 0, \<dots>]\<close>,
  which has the same hash: the profile rendered has a single record, with the stack of
  the third record and the counts of all three, and no record for the stack that
  occurred twice.
\<close>

theorem colliding_stack_takes_entry:
  "iteration_order [stack_hash (2 # 0 # replicate 30 0)]
     (dedup Map.empty
       [\<lparr>AllocBytes = 1, FreeBytes = 0, AllocObjects = 1, FreeObjects = 0,
          Stack0 = 2 # 0 # replicate 30 0\<rparr>,
        \<lparr>AllocBytes = 1, FreeBytes = 0, AllocObjects = 1, FreeObjects = 0,
          Stack0 = 2 # 0 # replicate 30 0\<rparr>,
        \<lparr>AllocBytes = 1, FreeBytes = 0, AllocObjects = 1, FreeObjects = 0,
          Stack0 = 1 # 1041 # replicate 30 0\<rparr>]) \<and>
   Heap_records [stack_hash (2 # 0 # replicate 30 0)] ''''
     [\<lparr>AllocBytes = 1, FreeBytes = 0, AllocObjects = 1, FreeObjects = 0,
        Stack0 = 2 # 0 # replicate 30 0\<rparr>,
      \<lparr>AllocBytes = 1, FreeBytes = 0, AllocObjects = 1, FreeObjects = 0,
        Stack0 = 2 # 0 # replicate 30 0\<rparr>,
      \<lparr>AllocBytes = 1, FreeBytes = 0, AllocObjects = 1, FreeObjects = 0,
        Stack0 = 1 # 1041 # replicate 30 0\<rparr>]
   = [\<lparr>AllocBytes = 3, FreeBytes = 0, AllocObjects = 3, FreeObjects = 0,
        Stack0 = 1 # 1041 # replicate 30 0\<rparr>]"
  by (simp add: Heap_records_def dedup_step_def merged_def collide range_map_def
      List.map_filter_simps sort_records_def iteration_order_def)

section \<open>Totals and order of the rendered records\<close>

lemma stack_loop_no_figures:
  "record_figures (fst (stack_loop env i sh wp stk)) = []"
  by (induction stk arbitrary: i sh wp)
    (simp_all add: case_prod_beta Let_def record_figures_def split: option.splits)

lemma record_figures_append: "record_figures (xs @ ys) = record_figures xs @ record_figures ys"
  by (simp add: record_figures_def)

lemma printStackRecord_no_figures:
  "record_figures (snd (printStackRecord env stk False)) = []"
  by (simp add: printStackRecord_False record_figures_append stack_loop_no_figures)
    (simp add: record_figures_def)

lemma record_figures_Cons: "record_figures (l # ls) = figures_of l @ record_figures ls"
  by (simp add: record_figures_def)

lemma record_figures_render: "record_figures (render_record env r) = [figures r]"
  by (simp add: render_record_def record_figures_Cons printStackRecord_no_figures figures_def)

lemma record_figures_records:
  "record_figures (concat (map (render_record env) rs)) = map figures rs"
proof (induction rs)
  case Nil
  then show ?case by (simp add: record_figures_def)
next
  case (Cons r rs)
  then show ?case by (simp add: record_figures_append record_figures_render)
qed

lemma record_figures_profile:
  "record_figures (Heap_profile env ks sortv p) = map figures (Heap_records ks sortv p)"
proof -
  have "record_figures (Heap_profile env ks sortv p) =
      record_figures (concat (map (render_record env) (Heap_records ks sortv p)))"
    by (simp add: Heap_profile_def Let_def record_figures_def)
  then show ?thesis by (simp only: record_figures_records)
qed

lemma total_loop_AllocBytes:
  "AllocBytes (total_loop t rs) = AllocBytes t + sum_list (map AllocBytes rs)"
  by (induction rs arbitrary: t) (simp_all add: add.assoc)

lemma total_loop_FreeBytes:
  "FreeBytes (total_loop t rs) = FreeBytes t + sum_list (map FreeBytes rs)"
  by (induction rs arbitrary: t) (simp_all add: add.assoc)

lemma total_loop_AllocObjects:
  "AllocObjects (total_loop t rs) = AllocObjects t + sum_list (map AllocObjects rs)"
  by (induction rs arbitrary: t) (simp_all add: add.assoc)

lemma total_loop_FreeObjects:
  "FreeObjects (total_loop t rs) = FreeObjects t + sum_list (map FreeObjects rs)"
  by (induction rs arbitrary: t) (simp_all add: add.assoc)

lemma sum_list_diff:
  fixes f g :: "'a \<Rightarrow> 64 word"
  shows "sum_list (map f xs) - sum_list (map g xs) = sum_list (map (\<lambda>x. f x - g x) xs)"
  by (induction xs) simp_all

lemma total_InUseBytes: "InUseBytes (total_loop zero_record rs) = sum_list (map InUseBytes rs)"
  by (simp add: InUseBytes_def [abs_def] total_loop_AllocBytes total_loop_FreeBytes
      zero_record_def sum_list_diff)

lemma total_InUseObjects:
  "InUseObjects (total_loop zero_record rs) = sum_list (map InUseObjects rs)"
  by (simp add: InUseObjects_def [abs_def] total_loop_AllocObjects total_loop_FreeObjects
      zero_record_def sum_list_diff)

lemma total_AllocBytes: "AllocBytes (total_loop zero_record rs) = sum_list (map AllocBytes rs)"
  by (simp add: total_loop_AllocBytes zero_record_def)

lemma total_AllocObjects:
  "AllocObjects (total_loop zero_record rs) = sum_list (map AllocObjects rs)"
  by (simp add: total_loop_AllocObjects zero_record_def)

text \<open>
  Claim C2.  The four figures of the header line (in-use objects, in-use bytes, allocated
  objects, allocated bytes) are the sums, in \<^verbatim>\<open>int64\<close> arithmetic, of the corresponding
  figures of the record lines of the same report.
\<close>

theorem header_totals:
  "\<exists>rest. Heap_profile env ks sortv p =
      Header (sum_list (map (\<lambda>(io, ib, ao, ab). io) (record_figures (Heap_profile env ks sortv p))))
             (sum_list (map (\<lambda>(io, ib, ao, ab). ib) (record_figures (Heap_profile env ks sortv p))))
             (sum_list (map (\<lambda>(io, ib, ao, ab). ao) (record_figures (Heap_profile env ks sortv p))))
             (sum_list (map (\<lambda>(io, ib, ao, ab). ab) (record_figures (Heap_profile env ks sortv p))))
             (2 * MemProfileRate env)
      # rest"
  unfolding record_figures_profile
  by (simp add: Heap_profile_def Let_def total_InUseBytes total_InUseObjects total_AllocBytes
      total_AllocObjects figures_def comp_def)

text \<open>
  Claim C3.  The figures of the record lines of the report are in non-increasing order of
  the allocated bytes for the sort value \<^verbatim>\<open>allocbytes\<close>, of the allocated objects for
  \<^verbatim>\<open>allocobjects\<close>, of the in-use objects for \<^verbatim>\<open>inuseobjects\<close>, and of the in-use bytes for
  every other value, each compared as an \<^verbatim>\<open>int64\<close>.
\<close>

theorem records_sorted:
  "(sortv = ''allocbytes'' \<longrightarrow>
      sorted_wrt (\<lambda>(io, ib, ao, ab) (io', ib', ao', ab'). sint ab' \<le> sint ab)
        (record_figures (Heap_profile env ks sortv p))) \<and>
   (sortv = ''allocobjects'' \<longrightarrow>
      sorted_wrt (\<lambda>(io, ib, ao, ab) (io', ib', ao', ab'). sint ao' \<le> sint ao)
        (record_figures (Heap_profile env ks sortv p))) \<and>
   (sortv = ''inuseobjects'' \<longrightarrow>
      sorted_wrt (\<lambda>(io, ib, ao, ab) (io', ib', ao', ab'). sint io' \<le> sint io)
        (record_figures (Heap_profile env ks sortv p))) \<and>
   (sortv \<notin> {''allocbytes'', ''allocobjects'', ''inuseobjects''} \<longrightarrow>
      sorted_wrt (\<lambda>(io, ib, ao, ab) (io', ib', ao', ab'). sint ib' \<le> sint ib)
        (record_figures (Heap_profile env ks sortv p)))"
proof -
  let ?rs = "range_map ks (dedup Map.empty p)"
  have ab: "sorted_wrt (\<lambda>a b. sint (AllocBytes b) \<le> sint (AllocBytes a))
      (sort_Sort byAllocBytes_Less ?rs)"
    by (rule sorted_sort_Sort) (simp add: byAllocBytes_Less_def)
  have ao: "sorted_wrt (\<lambda>a b. sint (AllocObjects b) \<le> sint (AllocObjects a))
      (sort_Sort byAllocObjects_Less ?rs)"
    by (rule sorted_sort_Sort) (simp add: byAllocObjects_Less_def)
  have io: "sorted_wrt (\<lambda>a b. sint (InUseObjects b) \<le> sint (InUseObjects a))
      (sort_Sort byInUseObjects_Less ?rs)"
    by (rule sorted_sort_Sort) (simp add: byInUseObjects_Less_def)
  have ib: "sorted_wrt (\<lambda>a b. sint (InUseBytes b) \<le> sint (InUseBytes a))
      (sort_Sort byInUseBytes_Less ?rs)"
    by (rule sorted_sort_Sort) (simp add: byInUseBytes_Less_def)
  show ?thesis
    unfolding record_figures_profile
    using ab ao io ib
    by (simp add: Heap_records_def sort_records_def sorted_wrt_map figures_def)
qed

theorem records_sorted_witness:
  "record_figures (Heap_profile demo_env [7165845124064202093, 15106844633065042878]
      ''allocbytes'' demo_profile) = [(2, 192, 2, 8192), (5, 5120, 6, 6144)] \<and>
   record_figures (Heap_profile demo_env [7165845124064202093, 15106844633065042878]
      '''' demo_profile) = [(5, 5120, 6, 6144), (2, 192, 2, 8192)] \<and>
   sorted_wrt (\<lambda>(io, ib, ao, ab) (io', ib', ao', ab'). sint ab' \<le> sint ab)
     (record_figures (Heap_profile demo_env [7165845124064202093, 15106844633065042878]
        ''allocbytes'' demo_profile)) \<and>
   sorted_wrt (\<lambda>(io, ib, ao, ab) (io', ib', ao', ab'). sint ao' \<le> sint ao)
     (record_figures (Heap_profile demo_env [7165845124064202093, 15106844633065042878]
        ''allocobjects'' demo_profile)) \<and>
   sorted_wrt (\<lambda>(io, ib, ao, ab) (io', ib', ao', ab'). sint io' \<le> sint io)
     (record_figures (Heap_profile demo_env [7165845124064202093, 15106844633065042878]
        ''inuseobjects'' demo_profile)) \<and>
   sorted_wrt (\<lambda>(io, ib, ao, ab) (io', ib', ao', ab'). sint ib' \<le> sint ib)
     (record_figures (Heap_profile demo_env [7165845124064202093, 15106844633065042878]
        '''' demo_profile))"
proof -
  let ?ks = "[7165845124064202093, 15106844633065042878] :: uintptr list"
  have 1: "record_figures (Heap_profile demo_env ?ks ''allocbytes'' demo_profile) =
      [(2, 192, 2, 8192), (5, 5120, 6, 6144)]"
    by (simp add: record_figures_profile demo_records_allocbytes figures_def
        InUseBytes_def InUseObjects_def)
  have 2: "record_figures (Heap_profile demo_env ?ks '''' demo_profile) =
      [(5, 5120, 6, 6144), (2, 192, 2, 8192)]"
    by (simp add: record_figures_profile demo_records_default figures_def
        InUseBytes_def InUseObjects_def)
  from records_sorted [of "''allocbytes''" demo_env ?ks demo_profile]
  have 3: "sorted_wrt (\<lambda>(io, ib, ao, ab) (io', ib', ao', ab'). sint ab' \<le> sint ab)
     (record_figures (Heap_profile demo_env ?ks ''allocbytes'' demo_profile))"
    by simp
  from records_sorted [of "''allocobjects''" demo_env ?ks demo_profile]
  have 4: "sorted_wrt (\<lambda>(io, ib, ao, ab) (io', ib', ao', ab'). sint ao' \<le> sint ao)
     (record_figures (Heap_profile demo_env ?ks ''allocobjects'' demo_profile))"
    by simp
  from records_sorted [of "''inuseobjects''" demo_env ?ks demo_profile]
  have 5: "sorted_wrt (\<lambda>(io, ib, ao, ab) (io', ib', ao', ab'). sint io' \<le> sint io)
     (record_figures (Heap_profile demo_env ?ks ''inuseobjects'' demo_profile))"
    by simp
  from records_sorted [of "''''" demo_env ?ks demo_profile]
  have 6: "sorted_wrt (\<lambda>(io, ib, ao, ab) (io', ib', ao', ab'). sint ib' \<le> sint ib)
     (record_figures (Heap_profile demo_env ?ks '''' demo_profile))"
    by simp
  from 1 2 3 4 5 6 show ?thesis by (intro conjI)
qed

end
